theory Spec2Isabelle
  imports Main
begin

section \<open>Values and errors\<close>

text \<open>
  The bodies of the service's responses, as \<^verbatim>\<open>response.json()\<close> returns them: a
  parsed JSON value. \<open>JNull\<close> is Python's \<^verbatim>\<open>None\<close>, \<open>JObj\<close> holds the items of a
  \<^verbatim>\<open>dict\<close> (string keys), \<open>JArr\<close> a \<^verbatim>\<open>list\<close>. Of a number only two things are
  used by the program (whether it is zero, and that it is neither a string nor
  subscriptable), so \<open>JNum\<close> carries an integer.
\<close>

datatype json =
    JNull
  | JBool bool
  | JNum int
  | JStr string
  | JArr "json list"
  | JObj "(string \<times> json) list"

text \<open>
  The exceptions the program can meet below \<^verbatim>\<open>Exception\<close>: those of \<^verbatim>\<open>requests\<close>
  (\<open>ConnectionError\<close> for a request that gets no response, \<open>HTTPError\<close> with the status
  code from \<^verbatim>\<open>raise_for_status\<close>, \<open>JSONDecodeError\<close> from \<^verbatim>\<open>.json()\<close>) and the
  lookup errors of subscripting.
\<close>

datatype error =
    ConnectionError
  | HTTPError nat
  | JSONDecodeError
  | KeyError json
  | TypeError
  | IndexError

text \<open>Truth value of a parsed JSON value (\<^verbatim>\<open>if data["output_images"]:\<close>, \<^verbatim>\<open>if image_url:\<close>).\<close>

fun py_truthy :: "json \<Rightarrow> bool" where
  "py_truthy JNull = False"
| "py_truthy (JBool b) = b"
| "py_truthy (JNum n) = (n \<noteq> 0)"
| "py_truthy (JStr s) = (s \<noteq> [])"
| "py_truthy (JArr xs) = (xs \<noteq> [])"
| "py_truthy (JObj kvs) = (kvs \<noteq> [])"

text \<open>
  \<^verbatim>\<open>value[key]\<close> with a string key: a \<^verbatim>\<open>dict\<close> raises \<^verbatim>\<open>KeyError\<close> for a missing
  key; a list or a string wants an integer index, the other values are not subscriptable
  (\<^verbatim>\<open>TypeError\<close> in both cases).
\<close>

fun py_getitem :: "json \<Rightarrow> string \<Rightarrow> error + json" where
  "py_getitem (JObj kvs) key =
     (case map_of kvs key of None \<Rightarrow> Inl (KeyError (JStr key)) | Some v \<Rightarrow> Inr v)"
| "py_getitem JNull key = Inl TypeError"
| "py_getitem (JBool b) key = Inl TypeError"
| "py_getitem (JNum n) key = Inl TypeError"
| "py_getitem (JStr s) key = Inl TypeError"
| "py_getitem (JArr xs) key = Inl TypeError"

text \<open>
  \<^verbatim>\<open>value[0]\<close>: the first element of a list, the first character of a string (as a
  string); a \<^verbatim>\<open>dict\<close> parsed from JSON has string keys only, so the key \<open>0\<close> is missing.
\<close>

fun py_getitem0 :: "json \<Rightarrow> error + json" where
  "py_getitem0 (JArr []) = Inl IndexError"
| "py_getitem0 (JArr (x # xs)) = Inr x"
| "py_getitem0 (JStr []) = Inl IndexError"
| "py_getitem0 (JStr (c # cs)) = Inr (JStr [c])"
| "py_getitem0 (JObj kvs) = Inl (KeyError (JNum 0))"
| "py_getitem0 JNull = Inl TypeError"
| "py_getitem0 (JBool b) = Inl TypeError"
| "py_getitem0 (JNum n) = Inl TypeError"

section \<open>The world: session states and the effects, in order\<close>

type_synonym user_id = int

text \<open>The texts the bot sends (main.py, lines 46, 55, 62, 70, 73, 75), by what they say.\<close>

datatype message =
    Greeting
  | AskForPrompt
  | Starting string
  | NotGenerated
  | ErrorOccurred
  | PressButtonFirst

text \<open>The log records of lines 105, 108, 113, 116 and 72, with the values they format.\<close>

datatype log_record =
    WarnNoImageUrl json
  | ErrGenerationFailed json json
  | WarnUnknownStatus json json
  | ErrTimeout json
  | ErrHandler user_id error

text \<open>
  Every effect of the handlers, recorded in the order it happens. A reply is tagged with
  the sender of the message it answers. \<open>HttpPost p\<close> is the job-creation call for the
  prompt \<open>p\<close>, \<open>HttpGet t\<close> a status call for the task id \<open>t\<close>, \<open>Sleep s\<close> is
  \<^verbatim>\<open>time.sleep(s)\<close>.
\<close>

datatype action =
    ReplyText user_id message
  | ReplyPhoto user_id json
  | AnswerCallback user_id
  | EditMessageText user_id message
  | HttpPost string
  | HttpGet json
  | Sleep nat
  | Log log_record

text \<open>\<open>user_states\<close> is the module's dictionary (line 40); \<open>trace\<close> is the history of effects.\<close>

record world =
  user_states :: "user_id \<rightharpoonup> string"
  trace :: "action list"

definition initial_world :: world where
  "initial_world = \<lparr>user_states = Map.empty, trace = []\<rparr>"

definition emit :: "action \<Rightarrow> world \<Rightarrow> world" where
  "emit a w = w\<lparr>trace := trace w @ [a]\<rparr>"

fun is_post :: "action \<Rightarrow> bool" where
  "is_post (HttpPost p) = True"
| "is_post a = False"

fun is_get :: "action \<Rightarrow> bool" where
  "is_get (HttpGet t) = True"
| "is_get a = False"


definition posts_made :: "action list \<Rightarrow> nat" where
  "posts_made tr = length (filter is_post tr)"

definition polls_made :: "action list \<Rightarrow> nat" where
  "polls_made tr = length (filter is_get tr)"


section \<open>The image-generation service\<close>

text \<open>
  An HTTP response as the program reads it: the status code and the body, \<open>None\<close> when
  the body is not JSON. A call either raises inside \<^verbatim>\<open>requests\<close> or gives a response.
\<close>

datatype response = Response (status_code: nat) (body: "json option")

type_synonym http_result = "error + response"

text \<open>
  The service is outside the program. It is a parameter: what the \<open>n\<close>-th job-creation
  call (counted from 0 over the whole run) answers for a prompt, and what the \<open>n\<close>-th
  status call answers for a task id. Any sequence of answers is some \<open>service\<close>.
\<close>

record service =
  post_generation :: "nat \<Rightarrow> string \<Rightarrow> http_result"
  get_task :: "nat \<Rightarrow> json \<Rightarrow> http_result"

definition http_post :: "service \<Rightarrow> string \<Rightarrow> world \<Rightarrow> http_result \<times> world" where
  "http_post srv prompt w =
     (post_generation srv (posts_made (trace w)) prompt, emit (HttpPost prompt) w)"

definition http_get :: "service \<Rightarrow> json \<Rightarrow> world \<Rightarrow> http_result \<times> world" where
  "http_get srv task_id w =
     (get_task srv (polls_made (trace w)) task_id, emit (HttpGet task_id) w)"

text \<open>\<^verbatim>\<open>Response.raise_for_status()\<close>: the codes 400 to 599 raise.\<close>

definition raise_for_status :: "response \<Rightarrow> error + unit" where
  "raise_for_status r =
     (if 400 \<le> status_code r \<and> status_code r < 600 then Inl (HTTPError (status_code r))
      else Inr ())"

text \<open>\<^verbatim>\<open>Response.json()\<close>.\<close>

definition response_json :: "response \<Rightarrow> error + json" where
  "response_json r = (case body r of None \<Rightarrow> Inl JSONDecodeError | Some j \<Rightarrow> Inr j)"

text \<open>
  The two steps every call of the program is followed by: \<^verbatim>\<open>raise_for_status()\<close>, then
  \<^verbatim>\<open>.json()\<close>; an exception of the call itself comes first.
\<close>

definition checked_json :: "http_result \<Rightarrow> error + json" where
  "checked_json res =
     (case res of
        Inl e \<Rightarrow> Inl e
      | Inr r \<Rightarrow> (case raise_for_status r of Inl e \<Rightarrow> Inl e | Inr u \<Rightarrow> response_json r))"

section \<open>generate\_image\_from\_prompt (lines 77 to 117)\<close>

text \<open>
  What one pass of the loop body decides after the status call (lines 98 to 114):
  \<open>Inl e\<close> raises \<open>e\<close>, \<open>Inr (Some v)\<close> returns \<open>v\<close> (\<open>JNull\<close> for \<^verbatim>\<open>None\<close>), \<open>Inr None\<close> is
  \<^verbatim>\<open>continue\<close>. The record to log, if any, comes with it.
\<close>

definition check_status ::
  "json \<Rightarrow> http_result \<Rightarrow> (error + json option) \<times> log_record list" where
  "check_status task_id res =
     (case checked_json res of
        Inl e \<Rightarrow> (Inl e, [])
      | Inr data \<Rightarrow>
          (case py_getitem data ''task_status'' of
             Inl e \<Rightarrow> (Inl e, [])
           | Inr st \<Rightarrow>
               if st = JStr ''SUCCEED'' then
                 (case py_getitem data ''output_images'' of
                    Inl e \<Rightarrow> (Inl e, [])
                  | Inr imgs \<Rightarrow>
                      if py_truthy imgs then
                        (case py_getitem0 imgs of
                           Inl e \<Rightarrow> (Inl e, [])
                         | Inr url \<Rightarrow> (Inr (Some url), []))
                      else (Inr (Some JNull), [WarnNoImageUrl data]))
               else if st = JStr ''FAILED'' then
                 (Inr (Some JNull), [ErrGenerationFailed task_id data])
               else if st = JStr ''RUNNING'' \<or> st = JStr ''PENDING'' then
                 (Inr None, [])
               else (Inr (Some JNull), [WarnUnknownStatus task_id st])))"

text \<open>One pass of the loop: sleep 5 seconds, ask for the status, decide, log.\<close>

definition poll_once :: "service \<Rightarrow> json \<Rightarrow> world \<Rightarrow> (error + json option) \<times> world" where
  "poll_once srv task_id w =
     (let (res, w') = http_get srv task_id (emit (Sleep 5) w);
          (out, logs) = check_status task_id res
      in (out, fold (\<lambda>l. emit (Log l)) logs w'))"

text \<open>
  \<^verbatim>\<open>for _ in range(n)\<close> with the body above; when the passes are used up, the timeout
  is logged and \<^verbatim>\<open>None\<close> returned (lines 116, 117).
\<close>

fun poll_loop :: "service \<Rightarrow> json \<Rightarrow> nat \<Rightarrow> world \<Rightarrow> (error + json) \<times> world" where
  "poll_loop srv task_id 0 w = (Inr JNull, emit (Log (ErrTimeout task_id)) w)"
| "poll_loop srv task_id (Suc n) w =
     (case poll_once srv task_id w of
        (Inl e, w') \<Rightarrow> (Inl e, w')
      | (Inr (Some v), w') \<Rightarrow> (Inr v, w')
      | (Inr None, w') \<Rightarrow> poll_loop srv task_id n w')"

definition generate_image_from_prompt ::
  "service \<Rightarrow> string \<Rightarrow> world \<Rightarrow> (error + json) \<times> world" where
  "generate_image_from_prompt srv prompt w =
     (let (res, w1) = http_post srv prompt w in
      case checked_json res of
        Inl e \<Rightarrow> (Inl e, w1)
      | Inr j \<Rightarrow>
          (case py_getitem j ''task_id'' of
             Inl e \<Rightarrow> (Inl e, w1)
           | Inr task_id \<Rightarrow> poll_loop srv task_id 20 w1))"

section \<open>The handlers (lines 42 to 75)\<close>


text \<open>
  \<^verbatim>\<open>button\<close>, for a callback query of the user \<open>uid\<close> with the data \<open>qdata\<close>.
\<close>

definition button :: "user_id \<Rightarrow> string \<Rightarrow> world \<Rightarrow> world" where
  "button uid qdata w =
     (let w1 = emit (AnswerCallback uid) w in
      if qdata = ''generate_image'' then
        emit (EditMessageText uid AskForPrompt)
          (w1\<lparr>user_states := (user_states w1)(uid \<mapsto> ''waiting_for_prompt'')\<rparr>)
      else w1)"

text \<open>\<^verbatim>\<open>del user_states[user_id]\<close>: a missing key raises.\<close>

definition del_user_state :: "user_id \<Rightarrow> world \<Rightarrow> error + world" where
  "del_user_state uid w =
     (case user_states w uid of
        None \<Rightarrow> Inl (KeyError (JNum uid))
      | Some s \<Rightarrow> Inr (w\<lparr>user_states := (user_states w)(uid := None)\<rparr>))"

text \<open>
  \<^verbatim>\<open>handle_message\<close>, for a text message \<open>text\<close> of the user \<open>uid\<close>. The result says how
  the handler ends: \<open>Inr ()\<close> when it returns, \<open>Inl e\<close> when the exception \<open>e\<close> leaves it.
  The \<^verbatim>\<open>try\<close> covers the call of the generation and the two replies after it;
  \<^verbatim>\<open>except Exception\<close> takes every \<open>error\<close>. Sending a reply is an effect that does not
  fail here: the chat transport is outside the program.
\<close>

definition handle_message ::
  "service \<Rightarrow> user_id \<Rightarrow> string \<Rightarrow> world \<Rightarrow> (error + unit) \<times> world" where
  "handle_message srv uid text w =
     (if user_states w uid = Some ''waiting_for_prompt'' then
        (let w1 = emit (ReplyText uid (Starting text)) w in
         case del_user_state uid w1 of
           Inl e \<Rightarrow> (Inl e, w1)
         | Inr w2 \<Rightarrow>
             (case generate_image_from_prompt srv text w2 of
                (Inr image_url, w3) \<Rightarrow>
                  if py_truthy image_url then (Inr (), emit (ReplyPhoto uid image_url) w3)
                  else (Inr (), emit (ReplyText uid NotGenerated) w3)
              | (Inl e, w3) \<Rightarrow>
                  (Inr (), emit (ReplyText uid ErrorOccurred) (emit (Log (ErrHandler uid e)) w3))))
      else (Inr (), emit (ReplyText uid PressButtonFirst) w))"

section \<open>The worlds a handler goes through\<close>

text \<open>
  The functions above give the world a call ends in. The ones below list, in order, the
  worlds the same call goes through, one after each statement that has an effect, so
  that the state of the sessions at the time of every call to the service can be read
  off. They follow the same lines of the source and take their decisions from the same
  functions.

  One pass of the loop: the world after the sleep (line 93), after the status call
  (line 94), and at the end of the pass (after the log record, if one is written).
\<close>

definition poll_once_worlds :: "service \<Rightarrow> json \<Rightarrow> world \<Rightarrow> world list" where
  "poll_once_worlds srv task_id w =
     (let w1 = emit (Sleep 5) w;
          (res, w2) = http_get srv task_id w1
      in [w1, w2, snd (poll_once srv task_id w)])"

text \<open>The loop: the worlds of each pass that is made, or of the timeout record.\<close>

fun poll_loop_worlds :: "service \<Rightarrow> json \<Rightarrow> nat \<Rightarrow> world \<Rightarrow> world list" where
  "poll_loop_worlds srv task_id 0 w = [emit (Log (ErrTimeout task_id)) w]"
| "poll_loop_worlds srv task_id (Suc n) w =
     poll_once_worlds srv task_id w @
     (case poll_once srv task_id w of
        (Inl e, w') \<Rightarrow> []
      | (Inr (Some v), w') \<Rightarrow> []
      | (Inr None, w') \<Rightarrow> poll_loop_worlds srv task_id n w')"

text \<open>The generation: the world after the job-creation call, then those of the loop.\<close>

definition generate_worlds :: "service \<Rightarrow> string \<Rightarrow> world \<Rightarrow> world list" where
  "generate_worlds srv prompt w =
     (let (res, w1) = http_post srv prompt w in
      w1 # (case checked_json res of
              Inl e \<Rightarrow> []
            | Inr j \<Rightarrow>
                (case py_getitem j ''task_id'' of
                   Inl e \<Rightarrow> []
                 | Inr task_id \<Rightarrow> poll_loop_worlds srv task_id 20 w1)))"

text \<open>
  \<^verbatim>\<open>handle_message\<close>: the world after the first reply (line 62), after the \<^verbatim>\<open>del\<close>
  (line 63), those of the generation (line 66), and after the log record and the reply
  that end the handler (lines 68, 70, 72, 73); or the one reply of line 75.
\<close>

definition handle_message_worlds :: "service \<Rightarrow> user_id \<Rightarrow> string \<Rightarrow> world \<Rightarrow> world list" where
  "handle_message_worlds srv uid text w =
     (if user_states w uid = Some ''waiting_for_prompt'' then
        (let w1 = emit (ReplyText uid (Starting text)) w in
         w1 # (case del_user_state uid w1 of
                 Inl e \<Rightarrow> []
               | Inr w2 \<Rightarrow>
                   w2 # generate_worlds srv text w2 @
                   (case generate_image_from_prompt srv text w2 of
                      (Inr image_url, w3) \<Rightarrow>
                        if py_truthy image_url then [emit (ReplyPhoto uid image_url) w3]
                        else [emit (ReplyText uid NotGenerated) w3]
                    | (Inl e, w3) \<Rightarrow>
                        [emit (Log (ErrHandler uid e)) w3,
                         emit (ReplyText uid ErrorOccurred) (emit (Log (ErrHandler uid e)) w3)])))
      else [emit (ReplyText uid PressButtonFirst) w])"

section \<open>The run of the bot\<close>




section \<open>Observing a run\<close>

text \<open>
  What a status call tells the loop: the value of \<^verbatim>\<open>data["task_status"]\<close> and of
  \<^verbatim>\<open>data["output_images"]\<close> for the answer \<open>res\<close>, or the exception on the way to it.
\<close>

definition task_status_of :: "http_result \<Rightarrow> error + json" where
  "task_status_of res =
     (case checked_json res of Inl e \<Rightarrow> Inl e | Inr data \<Rightarrow> py_getitem data ''task_status'')"


definition still_running :: "http_result \<Rightarrow> bool" where
  "still_running res =
     (task_status_of res = Inr (JStr ''RUNNING'') \<or> task_status_of res = Inr (JStr ''PENDING''))"

text \<open>The effects of \<open>k\<close> passes of the loop that end in \<^verbatim>\<open>continue\<close>.\<close>

fun passes :: "nat \<Rightarrow> json \<Rightarrow> action list" where
  "passes 0 tid = []"
| "passes (Suc k) tid = Sleep 5 # HttpGet tid # passes k tid"












subsection \<open>Services with a fixed script\<close>

text \<open>
  A response with status 200 and a JSON body, and the service that answers every
  job-creation call with \<open>created\<close>, the \<open>n\<close>-th status call with the \<open>n\<close>-th entry of
  \<open>polls\<close>, and every later one with \<open>rest\<close>.
\<close>

definition ok_json :: "json \<Rightarrow> http_result" where
  "ok_json j = Inr (Response 200 (Some j))"

definition scripted :: "http_result \<Rightarrow> http_result list \<Rightarrow> http_result \<Rightarrow> service" where
  "scripted created polls rest =
     \<lparr>post_generation = (\<lambda>n p. created),
      get_task = (\<lambda>n t. if n < length polls then polls ! n else rest)\<rparr>"

definition task_created :: http_result where
  "task_created = ok_json (JObj [(''task_id'', JStr ''T1'')])"

definition status_only :: "string \<Rightarrow> http_result" where
  "status_only st = ok_json (JObj [(''task_status'', JStr st)])"

definition succeeded_with :: "json list \<Rightarrow> http_result" where
  "succeeded_with imgs =
     ok_json (JObj [(''task_status'', JStr ''SUCCEED''), (''output_images'', JArr imgs)])"

text \<open>A world in which the users 7 and 8 have pressed the button.\<close>

definition two_waiting :: world where
  "two_waiting =
     \<lparr>user_states = [7 \<mapsto> ''waiting_for_prompt'', 8 \<mapsto> ''waiting_for_prompt''], trace = []\<rparr>"



section \<open>Basic facts\<close>

lemma trace_emit: "trace (emit a w) = trace w @ [a]"
  by (simp add: emit_def)

lemma user_states_emit: "user_states (emit a w) = user_states w"
  by (simp add: emit_def)

lemma fold_emit_log:
  "fold (\<lambda>l. emit (Log l)) logs w = w\<lparr>trace := trace w @ map Log logs\<rparr>"
  by (induction logs arbitrary: w) (simp_all add: emit_def)

lemma polls_made_append: "polls_made (xs @ ys) = polls_made xs + polls_made ys"
  by (simp add: polls_made_def)


lemma polls_made_map_Log: "polls_made (map Log ls) = 0"
  by (induction ls) (simp_all add: polls_made_def)

lemma polls_made_post: "polls_made (xs @ [HttpPost p]) = polls_made xs"
  by (simp add: polls_made_def)

lemma polls_made_passes: "polls_made (passes k tid) = k"
  by (induction k) (simp_all add: polls_made_def)


subsection \<open>One pass of the loop\<close>

lemma poll_once_eq:
  "poll_once srv tid w =
     (fst (check_status tid (get_task srv (polls_made (trace w)) tid)),
      w\<lparr>trace := trace w @ [Sleep 5, HttpGet tid]
           @ map Log (snd (check_status tid (get_task srv (polls_made (trace w)) tid)))\<rparr>)"
  by (simp add: poll_once_def http_get_def emit_def fold_emit_log polls_made_def
      split: prod.splits)

lemma check_status_still_running:
  "still_running res \<Longrightarrow> check_status tid res = (Inr None, [])"
  unfolding still_running_def task_status_of_def check_status_def
  by (cases "checked_json res") auto

lemma poll_once_still_running:
  "still_running (get_task srv (polls_made (trace w)) tid) \<Longrightarrow>
   poll_once srv tid w = (Inr None, w\<lparr>trace := trace w @ [Sleep 5, HttpGet tid]\<rparr>)"
  by (simp add: poll_once_eq check_status_still_running)


lemma user_states_poll_once: "user_states (snd (poll_once srv tid w)) = user_states w"
  by (simp add: poll_once_eq)

subsection \<open>The loop\<close>

lemma poll_loop_skip:
  "(\<And>i. i < k \<Longrightarrow> still_running (get_task srv (polls_made (trace w) + i) tid)) \<Longrightarrow>
   poll_loop srv tid (k + n) w = poll_loop srv tid n (w\<lparr>trace := trace w @ passes k tid\<rparr>)"
proof (induction k arbitrary: w)
  case 0
  then show ?case by simp
next
  case (Suc k)
  let ?w' = "w\<lparr>trace := trace w @ [Sleep 5, HttpGet tid]\<rparr>"
  from Suc.prems [of 0] have first: "still_running (get_task srv (polls_made (trace w)) tid)"
    by simp
  have once: "poll_once srv tid w = (Inr None, ?w')"
    using first by (rule poll_once_still_running)
  have pm: "polls_made (trace ?w') = Suc (polls_made (trace w))"
    by (simp add: polls_made_def)
  have rest: "still_running (get_task srv (polls_made (trace ?w') + i) tid)" if "i < k" for i
    using Suc.prems [of "Suc i"] that unfolding pm by simp
  have "poll_loop srv tid (Suc k + n) w = poll_loop srv tid (k + n) ?w'"
    by (simp add: once)
  also have "\<dots> = poll_loop srv tid n (?w'\<lparr>trace := trace ?w' @ passes k tid\<rparr>)"
    using rest by (rule Suc.IH)
  also have "?w'\<lparr>trace := trace ?w' @ passes k tid\<rparr> = w\<lparr>trace := trace w @ passes (Suc k) tid\<rparr>"
    by simp
  finally show ?case .
qed

lemma polls_le_poll_loop:
  "polls_made (trace (snd (poll_loop srv tid n w))) \<le> polls_made (trace w) + n"
proof (induction n arbitrary: w)
  case 0
  then show ?case by (simp add: emit_def polls_made_def)
next
  case (Suc n)
  obtain out w' where once: "poll_once srv tid w = (out, w')"
    by (cases "poll_once srv tid w")
  then have w': "polls_made (trace w') = Suc (polls_made (trace w))"
    by (auto simp: poll_once_eq polls_made_append polls_made_map_Log) (simp add: polls_made_def)
  show ?case
  proof (cases out)
    case (Inl e)
    then show ?thesis using once w' by simp
  next
    case (Inr r)
    show ?thesis
    proof (cases r)
      case None
      then show ?thesis using once Inr w' Suc.IH [of w'] by simp
    next
      case (Some v)
      then show ?thesis using once Inr w' by simp
    qed
  qed
qed


lemma user_states_poll_loop: "user_states (snd (poll_loop srv tid n w)) = user_states w"
  by (induction n arbitrary: w)
     (auto simp: user_states_emit poll_once_eq split: prod.splits sum.splits option.splits)

subsection \<open>The whole generation\<close>

lemma generate_created:
  assumes "checked_json (post_generation srv (posts_made (trace w)) prompt) = Inr j"
      and "py_getitem j ''task_id'' = Inr tid"
  shows "generate_image_from_prompt srv prompt w =
           poll_loop srv tid 20 (w\<lparr>trace := trace w @ [HttpPost prompt]\<rparr>)"
  using assms by (simp add: generate_image_from_prompt_def http_post_def emit_def)

lemma generate_skip:
  assumes created: "checked_json (post_generation srv (posts_made (trace w)) prompt) = Inr j"
      "py_getitem j ''task_id'' = Inr tid"
    and running: "\<And>i. i < k \<Longrightarrow> still_running (get_task srv (polls_made (trace w) + i) tid)"
    and bound: "k \<le> 20"
  shows "generate_image_from_prompt srv prompt w =
           poll_loop srv tid (20 - k) (w\<lparr>trace := trace w @ HttpPost prompt # passes k tid\<rparr>)"
proof -
  let ?w1 = "w\<lparr>trace := trace w @ [HttpPost prompt]\<rparr>"
  have "generate_image_from_prompt srv prompt w = poll_loop srv tid (k + (20 - k)) ?w1"
    using created bound by (simp add: generate_created)
  also have "\<dots> = poll_loop srv tid (20 - k) (?w1\<lparr>trace := trace ?w1 @ passes k tid\<rparr>)"
    by (rule poll_loop_skip) (simp add: polls_made_post running)
  finally show ?thesis by simp
qed

lemma polls_le_generate:
  "polls_made (trace (snd (generate_image_from_prompt srv prompt w))) \<le> polls_made (trace w) + 20"
proof -
  have "polls_made (trace (snd (poll_loop srv tid 20 (emit (HttpPost prompt) w))))
          \<le> polls_made (trace w) + 20" for tid
    using polls_le_poll_loop [of srv tid 20 "emit (HttpPost prompt) w"]
    by (simp add: emit_def polls_made_post)
  then show ?thesis
    by (auto simp: generate_image_from_prompt_def http_post_def emit_def polls_made_post
        split: sum.splits)
qed


lemma user_states_generate:
  "user_states (snd (generate_image_from_prompt srv prompt w)) = user_states w"
  by (auto simp: generate_image_from_prompt_def http_post_def user_states_emit
      user_states_poll_loop split: prod.splits sum.splits)

subsection \<open>The scripted answers\<close>

lemma checked_json_ok: "checked_json (ok_json j) = Inr j"
  by (simp add: checked_json_def ok_json_def raise_for_status_def response_json_def)

lemma task_status_status_only: "task_status_of (status_only st) = Inr (JStr st)"
  by (simp add: task_status_of_def status_only_def checked_json_ok)



lemma checked_json_task_created:
  "checked_json task_created = Inr (JObj [(''task_id'', JStr ''T1'')])"
  by (simp add: task_created_def checked_json_ok)

lemma polls_made_initial: "polls_made (trace initial_world) = 0"
  by (simp add: initial_world_def polls_made_def)

subsection \<open>The pass that decides\<close>


lemma check_status_succeed_empty:
  assumes "checked_json res = Inr data"
      and "py_getitem data ''task_status'' = Inr (JStr ''SUCCEED'')"
      and "py_getitem data ''output_images'' = Inr (JArr [])"
  shows "check_status tid res = (Inr (Some JNull), [WarnNoImageUrl data])"
  using assms unfolding check_status_def by simp

lemma check_status_succeed_no_key:
  assumes "checked_json res = Inr (JObj kvs)"
      and "map_of kvs ''task_status'' = Some (JStr ''SUCCEED'')"
      and "map_of kvs ''output_images'' = None"
  shows "check_status tid res = (Inl (KeyError (JStr ''output_images'')), [])"
  using assms unfolding check_status_def by simp

lemma passes_snoc: "passes k tid @ [Sleep 5, HttpGet tid] = passes (Suc k) tid"
  by (induction k) simp_all

text \<open>The generation when the pass number \<open>k\<close> (from 0) is the first that does not continue.\<close>

lemma generate_decided:
  assumes created: "checked_json (post_generation srv (posts_made (trace w)) prompt) = Inr j"
      "py_getitem j ''task_id'' = Inr tid"
    and running: "\<And>i. i < k \<Longrightarrow> still_running (get_task srv (polls_made (trace w) + i) tid)"
    and bound: "k < 20"
    and decided: "check_status tid (get_task srv (polls_made (trace w) + k) tid) = (out, logs)"
  shows "generate_image_from_prompt srv prompt w =
           (case out of
              Inl e \<Rightarrow> (Inl e, w\<lparr>trace := trace w @ HttpPost prompt # passes (Suc k) tid @ map Log logs\<rparr>)
            | Inr None \<Rightarrow> poll_loop srv tid (19 - k)
                 (w\<lparr>trace := trace w @ HttpPost prompt # passes (Suc k) tid @ map Log logs\<rparr>)
            | Inr (Some v) \<Rightarrow>
                (Inr v, w\<lparr>trace := trace w @ HttpPost prompt # passes (Suc k) tid @ map Log logs\<rparr>))"
proof -
  let ?wk = "w\<lparr>trace := trace w @ HttpPost prompt # passes k tid\<rparr>"
  have pm: "polls_made (trace ?wk) = polls_made (trace w) + k"
    using polls_made_passes [of k tid] by (simp add: polls_made_def)
  have tr: "trace ?wk @ [Sleep 5, HttpGet tid] @ map Log logs
              = trace w @ HttpPost prompt # passes (Suc k) tid @ map Log logs"
    using passes_snoc [of k tid] by simp
  have once: "poll_once srv tid ?wk =
      (out, w\<lparr>trace := trace w @ HttpPost prompt # passes (Suc k) tid @ map Log logs\<rparr>)"
    unfolding poll_once_eq pm decided using tr by simp
  from bound obtain m where m: "20 - k = Suc m" "m = 19 - k"
    by (cases "20 - k") auto
  have le: "k \<le> 20"
    using bound by simp
  have "generate_image_from_prompt srv prompt w = poll_loop srv tid (20 - k) ?wk"
    using created running le by (rule generate_skip)
  then show ?thesis
    unfolding m(1) using once m(2) by (simp split: sum.splits option.splits)
qed


lemma still_running_status_only:
  "still_running (status_only ''RUNNING'')" "still_running (status_only ''PENDING'')"
  by (simp_all add: still_running_def task_status_status_only)

subsection \<open>The text-message handler\<close>

lemma handle_message_rejected:
  "user_states w uid \<noteq> Some ''waiting_for_prompt'' \<Longrightarrow>
   handle_message srv uid text w = (Inr (), emit (ReplyText uid PressButtonFirst) w)"
  by (simp add: handle_message_def)

lemma del_user_state_waiting:
  "user_states w uid = Some ''waiting_for_prompt'' \<Longrightarrow>
   del_user_state uid (emit (ReplyText uid (Starting text)) w) =
     Inr (w\<lparr>user_states := (user_states w)(uid := None),
            trace := trace w @ [ReplyText uid (Starting text)]\<rparr>)"
  by (simp add: del_user_state_def emit_def)

lemma handle_message_accepted:
  assumes "user_states w uid = Some ''waiting_for_prompt''"
  shows "handle_message srv uid text w =
     (case generate_image_from_prompt srv text
             (w\<lparr>user_states := (user_states w)(uid := None),
                trace := trace w @ [ReplyText uid (Starting text)]\<rparr>) of
        (Inr image_url, w3) \<Rightarrow>
          if py_truthy image_url then (Inr (), emit (ReplyPhoto uid image_url) w3)
          else (Inr (), emit (ReplyText uid NotGenerated) w3)
      | (Inl e, w3) \<Rightarrow>
          (Inr (), emit (ReplyText uid ErrorOccurred) (emit (Log (ErrHandler uid e)) w3)))"
  using assms by (simp add: handle_message_def del_user_state_waiting)

lemma handle_message_returns: "fst (handle_message srv uid text w) = Inr ()"
proof (cases "user_states w uid = Some ''waiting_for_prompt''")
  case True
  then show ?thesis
    by (simp add: handle_message_accepted split: prod.splits sum.splits)
next
  case False
  then show ?thesis by (simp add: handle_message_rejected)
qed

lemma user_states_handle_message:
  "user_states (snd (handle_message srv uid text w)) =
     (if user_states w uid = Some ''waiting_for_prompt'' then (user_states w)(uid := None)
      else user_states w)"
proof (cases "user_states w uid = Some ''waiting_for_prompt''")
  case True
  let ?w2 = "w\<lparr>user_states := (user_states w)(uid := None),
                trace := trace w @ [ReplyText uid (Starting text)]\<rparr>"
  obtain res w3 where g: "generate_image_from_prompt srv text ?w2 = (res, w3)"
    by (cases "generate_image_from_prompt srv text ?w2")
  from user_states_generate [of srv "text" "?w2"] g
  have "user_states w3 = (user_states w)(uid := None)"
    by simp
  with True g show ?thesis
    by (simp add: handle_message_accepted user_states_emit split: sum.splits)
next
  case False
  then show ?thesis by (simp add: handle_message_rejected user_states_emit)
qed


lemma user_states_button:
  "user_states (button uid ''generate_image'' w) = (user_states w)(uid \<mapsto> ''waiting_for_prompt'')"
  by (simp add: button_def Let_def emit_def)

subsection \<open>Counting accepted prompts\<close>








subsection \<open>Counting job-creation calls\<close>




subsection \<open>The worlds on the way\<close>

lemma poll_once_worlds_eq:
  "poll_once_worlds srv tid w =
     [emit (Sleep 5) w, emit (HttpGet tid) (emit (Sleep 5) w), snd (poll_once srv tid w)]"
  by (simp add: poll_once_worlds_def http_get_def Let_def)

lemma user_states_poll_once_worlds:
  "x \<in> set (poll_once_worlds srv tid w) \<Longrightarrow> user_states x = user_states w"
  by (auto simp: poll_once_worlds_eq user_states_emit user_states_poll_once)

lemma user_states_poll_loop_worlds:
  "x \<in> set (poll_loop_worlds srv tid n w) \<Longrightarrow> user_states x = user_states w"
proof (induction n arbitrary: w)
  case 0
  then show ?case by (simp add: user_states_emit)
next
  case (Suc n)
  obtain out w' where once: "poll_once srv tid w = (out, w')"
    by (cases "poll_once srv tid w")
  then have w': "user_states w' = user_states w"
    using user_states_poll_once [of srv tid w] by simp
  from Suc.prems once consider
      "x \<in> set (poll_once_worlds srv tid w)"
    | "out = Inr None" "x \<in> set (poll_loop_worlds srv tid n w')"
    by (auto split: sum.splits option.splits)
  then show ?case
  proof cases
    case 1
    then show ?thesis by (rule user_states_poll_once_worlds)
  next
    case 2
    then show ?thesis using Suc.IH [of w'] w' by simp
  qed
qed

lemma generate_worlds_first:
  "\<exists>rest. generate_worlds srv prompt w = emit (HttpPost prompt) w # rest"
  by (simp add: generate_worlds_def http_post_def)

lemma user_states_generate_worlds:
  "x \<in> set (generate_worlds srv prompt w) \<Longrightarrow> user_states x = user_states w"
  by (auto simp: generate_worlds_def http_post_def user_states_emit
      dest: user_states_poll_loop_worlds split: sum.splits)

lemma poll_loop_worlds_last:
  "poll_loop_worlds srv tid n w \<noteq> [] \<and> last (poll_loop_worlds srv tid n w) = snd (poll_loop srv tid n w)"
proof (induction n arbitrary: w)
  case 0
  show ?case by simp
next
  case (Suc n)
  obtain out w' where once: "poll_once srv tid w = (out, w')"
    by (cases "poll_once srv tid w")
  show ?case
  proof (cases out)
    case (Inl e)
    with once show ?thesis by (simp add: poll_once_worlds_eq)
  next
    case (Inr r)
    show ?thesis
    proof (cases r)
      case None
      with once Inr Suc.IH [of w'] show ?thesis by simp
    next
      case (Some v)
      with once Inr show ?thesis by (simp add: poll_once_worlds_eq)
    qed
  qed
qed

lemma generate_worlds_last:
  "last (generate_worlds srv prompt w) = snd (generate_image_from_prompt srv prompt w)"
  by (simp add: generate_worlds_def generate_image_from_prompt_def http_post_def
      poll_loop_worlds_last split: sum.splits)

lemma handle_message_worlds_accepted:
  assumes "user_states w uid = Some ''waiting_for_prompt''"
  shows "handle_message_worlds srv uid text w =
     emit (ReplyText uid (Starting text)) w
     # w\<lparr>user_states := (user_states w)(uid := None),
          trace := trace w @ [ReplyText uid (Starting text)]\<rparr>
     # generate_worlds srv text
          (w\<lparr>user_states := (user_states w)(uid := None),
             trace := trace w @ [ReplyText uid (Starting text)]\<rparr>)
     @ (case generate_image_from_prompt srv text
               (w\<lparr>user_states := (user_states w)(uid := None),
                  trace := trace w @ [ReplyText uid (Starting text)]\<rparr>) of
          (Inr image_url, w3) \<Rightarrow>
            if py_truthy image_url then [emit (ReplyPhoto uid image_url) w3]
            else [emit (ReplyText uid NotGenerated) w3]
        | (Inl e, w3) \<Rightarrow>
            [emit (Log (ErrHandler uid e)) w3,
             emit (ReplyText uid ErrorOccurred) (emit (Log (ErrHandler uid e)) w3)])"
  using assms by (simp add: handle_message_worlds_def del_user_state_waiting Let_def)

lemma handle_message_worlds_last:
  "last (handle_message_worlds srv uid text w) = snd (handle_message srv uid text w)"
proof (cases "user_states w uid = Some ''waiting_for_prompt''")
  case True
  then show ?thesis
    by (simp add: handle_message_worlds_accepted handle_message_accepted
        split: prod.splits sum.splits)
next
  case False
  then show ?thesis by (simp add: handle_message_worlds_def handle_message_rejected)
qed

lemma ending_worlds_user_states:
  "x \<in> set (case res of
               Inr image_url \<Rightarrow>
                 if py_truthy image_url then [emit (ReplyPhoto uid image_url) w3]
                 else [emit (ReplyText uid NotGenerated) w3]
             | Inl e \<Rightarrow>
                 [emit (Log (ErrHandler uid e)) w3,
                  emit (ReplyText uid ErrorOccurred) (emit (Log (ErrHandler uid e)) w3)]) \<Longrightarrow>
   user_states x = user_states w3"
  by (cases res) (auto simp: user_states_emit split: if_splits)

lemma handle_message_worlds_split:
  assumes waiting: "user_states w uid = Some ''waiting_for_prompt''"
    and w2: "w2 = w\<lparr>user_states := (user_states w)(uid := None),
                      trace := trace w @ [ReplyText uid (Starting text)]\<rparr>"
  shows "\<exists>rest. handle_message_worlds srv uid text w =
            emit (ReplyText uid (Starting text)) w # w2 # emit (HttpPost text) w2 # rest
          \<and> set (generate_worlds srv text w2) \<subseteq> set (emit (HttpPost text) w2 # rest)
          \<and> (\<forall>x \<in> set rest. user_states x = user_states w2)"
proof -
  obtain res w3 where r: "generate_image_from_prompt srv text w2 = (res, w3)"
    by (cases "generate_image_from_prompt srv text w2")
  define ending where "ending =
    (case res of
       Inr image_url \<Rightarrow>
         if py_truthy image_url then [emit (ReplyPhoto uid image_url) w3]
         else [emit (ReplyText uid NotGenerated) w3]
     | Inl e \<Rightarrow>
         [emit (Log (ErrHandler uid e)) w3,
          emit (ReplyText uid ErrorOccurred) (emit (Log (ErrHandler uid e)) w3)])"
  from generate_worlds_first [of srv "text" w2] obtain gs where
    gs: "generate_worlds srv text w2 = emit (HttpPost text) w2 # gs"
    by blast
  have w3: "user_states w3 = user_states w2"
    using user_states_generate [of srv "text" w2] r by simp
  have g: "user_states x = user_states w2" if "x \<in> set gs" for x
  proof -
    from that gs have "x \<in> set (generate_worlds srv text w2)" by simp
    then show ?thesis by (rule user_states_generate_worlds)
  qed
  have t: "user_states x = user_states w2" if "x \<in> set ending" for x
    using that ending_worlds_user_states [where x = x and res = res and uid = uid and ?w3.0 = w3] w3 unfolding ending_def by simp
  have "handle_message_worlds srv uid text w =
          emit (ReplyText uid (Starting text)) w # w2 # generate_worlds srv text w2 @ ending"
    unfolding handle_message_worlds_accepted [OF waiting] w2 [symmetric] r ending_def
    by (cases res) simp_all
  then have "handle_message_worlds srv uid text w =
          emit (ReplyText uid (Starting text)) w # w2 # emit (HttpPost text) w2 # (gs @ ending)"
    by (simp add: gs)
  moreover have "set (generate_worlds srv text w2) \<subseteq> set (emit (HttpPost text) w2 # (gs @ ending))"
    unfolding gs by auto
  moreover have "\<forall>x \<in> set (gs @ ending). user_states x = user_states w2"
    using g t by auto
  ultimately show ?thesis by blast
qed


subsection \<open>Updates that bring no trigger\<close>








section \<open>The claims\<close>

text \<open>
  C4. When the job is created with a task id and all twenty status calls answer
  \<open>RUNNING\<close>, the generation makes exactly twenty status calls, each after a sleep of 5
  seconds, logs the timeout and returns \<^verbatim>\<open>None\<close>. Whatever the service answers, a
  generation makes at most twenty status calls.
\<close>

theorem generate_timeout:
  assumes created: "checked_json (post_generation srv (posts_made (trace w)) prompt) = Inr j"
      "py_getitem j ''task_id'' = Inr tid"
    and running: "\<forall>i<20. task_status_of (get_task srv (polls_made (trace w) + i) tid) = Inr (JStr ''RUNNING'')"
  shows "generate_image_from_prompt srv prompt w =
           (Inr JNull, w\<lparr>trace := trace w @ HttpPost prompt # passes 20 tid @ [Log (ErrTimeout tid)]\<rparr>)
         \<and> polls_made (trace (snd (generate_image_from_prompt srv prompt w))) = polls_made (trace w) + 20
         \<and> (\<forall>srv' prompt' w'. polls_made (trace (snd (generate_image_from_prompt srv' prompt' w')))
               \<le> polls_made (trace w') + 20)"
proof -
  have "generate_image_from_prompt srv prompt w =
          poll_loop srv tid (20 - 20) (w\<lparr>trace := trace w @ HttpPost prompt # passes 20 tid\<rparr>)"
    using created
  proof (rule generate_skip)
    show "still_running (get_task srv (polls_made (trace w) + i) tid)" if "i < 20" for i
      using running that by (simp add: still_running_def)
  qed simp
  then have eq: "generate_image_from_prompt srv prompt w =
           (Inr JNull, w\<lparr>trace := trace w @ HttpPost prompt # passes 20 tid @ [Log (ErrTimeout tid)]\<rparr>)"
    by (simp add: emit_def)
  have "polls_made (trace w @ HttpPost prompt # passes 20 tid @ [Log (ErrTimeout tid)])
          = polls_made (trace w) + 20"
    using polls_made_passes [of 20 tid] by (simp add: polls_made_def)
  with eq polls_le_generate show ?thesis by simp
qed

theorem generate_timeout_witness:
  "fst (generate_image_from_prompt (scripted task_created [] (status_only ''RUNNING'')) ''a cat''
          initial_world) = Inr JNull
   \<and> trace (snd (generate_image_from_prompt (scripted task_created [] (status_only ''RUNNING''))
          ''a cat'' initial_world))
       = HttpPost ''a cat'' # passes 20 (JStr ''T1'') @ [Log (ErrTimeout (JStr ''T1''))]
   \<and> polls_made (trace (snd (generate_image_from_prompt
          (scripted task_created [] (status_only ''RUNNING'')) ''a cat'' initial_world))) = 20"
proof -
  let ?srv = "scripted task_created [] (status_only ''RUNNING'')"
  have c: "checked_json (post_generation ?srv (posts_made (trace initial_world)) ''a cat'')
             = Inr (JObj [(''task_id'', JStr ''T1'')])"
    by (simp add: scripted_def checked_json_task_created)
  have t: "py_getitem (JObj [(''task_id'', JStr ''T1'')]) ''task_id'' = Inr (JStr ''T1'')"
    by simp
  have r: "\<forall>i<20. task_status_of (get_task ?srv (polls_made (trace initial_world) + i) (JStr ''T1''))
             = Inr (JStr ''RUNNING'')"
    by (simp add: scripted_def task_status_status_only)
  note g = generate_timeout [OF c t r]
  from g have "generate_image_from_prompt ?srv ''a cat'' initial_world =
      (Inr JNull, initial_world\<lparr>trace := trace initial_world
         @ HttpPost ''a cat'' # passes 20 (JStr ''T1'') @ [Log (ErrTimeout (JStr ''T1''))]\<rparr>)"
    by (rule conjunct1)
  moreover from g have "polls_made (trace (snd (generate_image_from_prompt ?srv ''a cat''
      initial_world))) = polls_made (trace initial_world) + 20"
    by blast
  ultimately show ?thesis
    by (simp add: polls_made_initial) (simp add: initial_world_def)
qed




text \<open>
  C5. When the job-creation call is answered with an error status (400 to 599), the
  generation ends with the \<open>HTTPError\<close> that \<^verbatim>\<open>raise_for_status\<close> raises: it is handed
  to the caller as it is, nothing is returned, and no status call is made.
\<close>

theorem generate_creation_http_error:
  assumes answered: "post_generation srv (posts_made (trace w)) prompt = Inr r"
    and status: "400 \<le> status_code r" "status_code r < 600"
  shows "generate_image_from_prompt srv prompt w =
           (Inl (HTTPError (status_code r)), w\<lparr>trace := trace w @ [HttpPost prompt]\<rparr>)
         \<and> polls_made (trace (snd (generate_image_from_prompt srv prompt w))) = polls_made (trace w)"
proof -
  have "checked_json (post_generation srv (posts_made (trace w)) prompt)
          = Inl (HTTPError (status_code r))"
    using assms by (simp add: checked_json_def raise_for_status_def)
  then have "generate_image_from_prompt srv prompt w =
           (Inl (HTTPError (status_code r)), w\<lparr>trace := trace w @ [HttpPost prompt]\<rparr>)"
    by (simp add: generate_image_from_prompt_def http_post_def emit_def)
  then show ?thesis by (simp add: polls_made_post)
qed

theorem generate_creation_http_error_witness:
  "generate_image_from_prompt
     (scripted (Inr (Response 503 None)) [] (status_only ''RUNNING'')) ''a cat'' initial_world
     = (Inl (HTTPError 503), \<lparr>user_states = Map.empty, trace = [HttpPost ''a cat'']\<rparr>)
   \<and> polls_made (trace (snd (generate_image_from_prompt
     (scripted (Inr (Response 503 None)) [] (status_only ''RUNNING'')) ''a cat'' initial_world))) = 0"
proof -
  let ?srv = "scripted (Inr (Response 503 None)) [] (status_only ''RUNNING'')"
  have a: "post_generation ?srv (posts_made (trace initial_world)) ''a cat'' = Inr (Response 503 None)"
    by (simp add: scripted_def)
  have b: "400 \<le> status_code (Response 503 None)" "status_code (Response 503 None) < 600"
    by simp_all
  note g = generate_creation_http_error [OF a b]
  have "generate_image_from_prompt ?srv ''a cat'' initial_world
     = (Inl (HTTPError 503), \<lparr>user_states = Map.empty, trace = [HttpPost ''a cat'']\<rparr>)"
    using g [THEN conjunct1] by (simp add: initial_world_def)
  moreover have "polls_made (trace (snd (generate_image_from_prompt ?srv ''a cat'' initial_world))) = 0"
    using g [THEN conjunct2] by (simp only: polls_made_initial)
  ultimately show ?thesis by blast
qed

text \<open>
  C6. When the first status call that does not say \<open>RUNNING\<close> or \<open>PENDING\<close> (one of
  the twenty) says \<open>SUCCEED\<close> and \<^verbatim>\<open>output_images\<close> is a list: for the empty list the
  generation logs the warning and returns \<^verbatim>\<open>None\<close>, it does not raise; for a list with
  entries it returns the first entry.
\<close>

theorem generate_succeed_output_images:
  assumes created: "checked_json (post_generation srv (posts_made (trace w)) prompt) = Inr j"
      "py_getitem j ''task_id'' = Inr tid"
    and running: "\<forall>i<k. still_running (get_task srv (polls_made (trace w) + i) tid)"
    and bound: "k < 20"
    and answer: "checked_json (get_task srv (polls_made (trace w) + k) tid) = Inr data"
      "py_getitem data ''task_status'' = Inr (JStr ''SUCCEED'')"
      "py_getitem data ''output_images'' = Inr (JArr imgs)"
  shows "generate_image_from_prompt srv prompt w =
           (case imgs of
              [] \<Rightarrow> (Inr JNull, w\<lparr>trace := trace w @ HttpPost prompt # passes (Suc k) tid
                                       @ [Log (WarnNoImageUrl data)]\<rparr>)
            | url # urls \<Rightarrow> (Inr url, w\<lparr>trace := trace w @ HttpPost prompt # passes (Suc k) tid\<rparr>))"
proof -
  have r: "still_running (get_task srv (polls_made (trace w) + i) tid)" if "i < k" for i
    using running that by simp
  show ?thesis
  proof (cases imgs)
    case Nil
    with answer have "check_status tid (get_task srv (polls_made (trace w) + k) tid)
        = (Inr (Some JNull), [WarnNoImageUrl data])"
      by (simp add: check_status_succeed_empty)
    from generate_decided [OF created r bound this] Nil show ?thesis by simp
  next
    case (Cons url urls)
    with answer have "check_status tid (get_task srv (polls_made (trace w) + k) tid)
        = (Inr (Some url), [])"
      by (simp add: check_status_def)
    from generate_decided [OF created r bound this] Cons show ?thesis by simp
  qed
qed

theorem generate_succeed_output_images_witness:
  "generate_image_from_prompt
     (scripted task_created [status_only ''RUNNING'', succeeded_with []] (status_only ''RUNNING''))
     ''a cat'' initial_world
     = (Inr JNull,
        \<lparr>user_states = Map.empty,
         trace = [HttpPost ''a cat'', Sleep 5, HttpGet (JStr ''T1''), Sleep 5, HttpGet (JStr ''T1''),
                  Log (WarnNoImageUrl (JObj [(''task_status'', JStr ''SUCCEED''),
                                             (''output_images'', JArr [])]))]\<rparr>)
   \<and> generate_image_from_prompt
     (scripted task_created [succeeded_with [JStr ''u'', JStr ''v'']] (status_only ''RUNNING''))
     ''a cat'' initial_world
     = (Inr (JStr ''u''),
        \<lparr>user_states = Map.empty, trace = [HttpPost ''a cat'', Sleep 5, HttpGet (JStr ''T1'')]\<rparr>)"
proof -
  let ?srv = "scripted task_created [status_only ''RUNNING'', succeeded_with []] (status_only ''RUNNING'')"
  let ?data = "JObj [(''task_status'', JStr ''SUCCEED''), (''output_images'', JArr [])]"
  let ?srv' = "scripted task_created [succeeded_with [JStr ''u'', JStr ''v'']] (status_only ''RUNNING'')"
  let ?data' = "JObj [(''task_status'', JStr ''SUCCEED''),
                      (''output_images'', JArr [JStr ''u'', JStr ''v''])]"
  have c: "checked_json (post_generation ?srv (posts_made (trace initial_world)) ''a cat'')
             = Inr (JObj [(''task_id'', JStr ''T1'')])"
    by (simp add: scripted_def checked_json_task_created)
  have c': "checked_json (post_generation ?srv' (posts_made (trace initial_world)) ''a cat'')
             = Inr (JObj [(''task_id'', JStr ''T1'')])"
    by (simp add: scripted_def checked_json_task_created)
  have t: "py_getitem (JObj [(''task_id'', JStr ''T1'')]) ''task_id'' = Inr (JStr ''T1'')"
    by simp
  have r: "\<forall>i<1. still_running (get_task ?srv (polls_made (trace initial_world) + i) (JStr ''T1''))"
    by (simp add: scripted_def polls_made_initial still_running_status_only)
  have r': "\<forall>i<0. still_running (get_task ?srv' (polls_made (trace initial_world) + i) (JStr ''T1''))"
    by simp
  have b: "(1::nat) < 20" and b': "(0::nat) < 20"
    by simp_all
  have a1: "checked_json (get_task ?srv (polls_made (trace initial_world) + 1) (JStr ''T1'')) = Inr ?data"
    by (simp add: scripted_def polls_made_initial succeeded_with_def checked_json_ok)
  have a1': "checked_json (get_task ?srv' (polls_made (trace initial_world) + 0) (JStr ''T1'')) = Inr ?data'"
    by (simp add: scripted_def polls_made_initial succeeded_with_def checked_json_ok)
  have a2: "py_getitem ?data ''task_status'' = Inr (JStr ''SUCCEED'')"
    and a2': "py_getitem ?data' ''task_status'' = Inr (JStr ''SUCCEED'')"
    by simp_all
  have a3: "py_getitem ?data ''output_images'' = Inr (JArr [])"
    and a3': "py_getitem ?data' ''output_images'' = Inr (JArr [JStr ''u'', JStr ''v''])"
    by simp_all
  have "generate_image_from_prompt ?srv ''a cat'' initial_world
     = (Inr JNull,
        \<lparr>user_states = Map.empty,
         trace = [HttpPost ''a cat'', Sleep 5, HttpGet (JStr ''T1''), Sleep 5, HttpGet (JStr ''T1''),
                  Log (WarnNoImageUrl ?data)]\<rparr>)"
    using generate_succeed_output_images [OF c t r b a1 a2 a3]
    by (simp add: initial_world_def numeral_2_eq_2)
  moreover have "generate_image_from_prompt ?srv' ''a cat'' initial_world
     = (Inr (JStr ''u''),
        \<lparr>user_states = Map.empty, trace = [HttpPost ''a cat'', Sleep 5, HttpGet (JStr ''T1'')]\<rparr>)"
    using generate_succeed_output_images [OF c' t r' b' a1' a2' a3']
    by (simp add: initial_world_def)
  ultimately show ?thesis by blast
qed

text \<open>
  C9. When that status call says \<open>SUCCEED\<close> and its body has no key
  \<^verbatim>\<open>output_images\<close> at all, the generation raises \<^verbatim>\<open>KeyError\<close> for that key; it
  does not return \<^verbatim>\<open>None\<close>.
\<close>

theorem generate_succeed_without_output_images:
  assumes created: "checked_json (post_generation srv (posts_made (trace w)) prompt) = Inr j"
      "py_getitem j ''task_id'' = Inr tid"
    and running: "\<forall>i<k. still_running (get_task srv (polls_made (trace w) + i) tid)"
    and bound: "k < 20"
    and answer: "checked_json (get_task srv (polls_made (trace w) + k) tid) = Inr (JObj kvs)"
      "map_of kvs ''task_status'' = Some (JStr ''SUCCEED'')"
      "map_of kvs ''output_images'' = None"
  shows "generate_image_from_prompt srv prompt w =
           (Inl (KeyError (JStr ''output_images'')),
            w\<lparr>trace := trace w @ HttpPost prompt # passes (Suc k) tid\<rparr>)"
proof -
  have r: "still_running (get_task srv (polls_made (trace w) + i) tid)" if "i < k" for i
    using running that by simp
  from answer have "check_status tid (get_task srv (polls_made (trace w) + k) tid)
        = (Inl (KeyError (JStr ''output_images'')), [])"
    by (rule check_status_succeed_no_key)
  from generate_decided [OF created r bound this] show ?thesis by simp
qed

theorem generate_succeed_without_output_images_witness:
  "generate_image_from_prompt
     (scripted task_created [status_only ''SUCCEED''] (status_only ''RUNNING''))
     ''a cat'' initial_world
     = (Inl (KeyError (JStr ''output_images'')),
        \<lparr>user_states = Map.empty,
         trace = [HttpPost ''a cat'', Sleep 5, HttpGet (JStr ''T1'')]\<rparr>)"
proof -
  let ?srv = "scripted task_created [status_only ''SUCCEED''] (status_only ''RUNNING'')"
  have c: "checked_json (post_generation ?srv (posts_made (trace initial_world)) ''a cat'')
             = Inr (JObj [(''task_id'', JStr ''T1'')])"
    by (simp add: scripted_def checked_json_task_created)
  have t: "py_getitem (JObj [(''task_id'', JStr ''T1'')]) ''task_id'' = Inr (JStr ''T1'')"
    by simp
  have r: "\<forall>i<0. still_running (get_task ?srv (polls_made (trace initial_world) + i) (JStr ''T1''))"
    by simp
  have b: "(0::nat) < 20"
    by simp
  have a1: "checked_json (get_task ?srv (polls_made (trace initial_world) + 0) (JStr ''T1''))
              = Inr (JObj [(''task_status'', JStr ''SUCCEED'')])"
    by (simp add: scripted_def polls_made_initial status_only_def checked_json_ok)
  have a2: "map_of [(''task_status'', JStr ''SUCCEED'')] ''task_status'' = Some (JStr ''SUCCEED'')"
    by simp
  have a3: "map_of [(''task_status'', JStr ''SUCCEED'')] ''output_images'' = None"
    by simp
  from generate_succeed_without_output_images [OF c t r b a1 a2 a3] show ?thesis
    by (simp add: initial_world_def)
qed

text \<open>
  C7. A text message of a user whose session does not wait for a prompt (no entry, or
  any other value) is answered with the instruction to press the button first, and that
  is all the handler does: it returns, the session states are the same, and no call to
  the service was made, so no generation was started.
\<close>

theorem text_without_trigger:
  assumes "user_states w uid \<noteq> Some ''waiting_for_prompt''"
  shows "handle_message srv uid text w =
           (Inr (), w\<lparr>trace := trace w @ [ReplyText uid PressButtonFirst]\<rparr>)
         \<and> user_states (snd (handle_message srv uid text w)) = user_states w
         \<and> posts_made (trace (snd (handle_message srv uid text w))) = posts_made (trace w)
         \<and> polls_made (trace (snd (handle_message srv uid text w))) = polls_made (trace w)"
  using assms
  by (simp add: handle_message_rejected emit_def posts_made_def polls_made_def)

theorem text_without_trigger_witness:
  "handle_message (scripted task_created [] (succeeded_with [JStr ''u''])) 7 ''a cat'' initial_world
     = (Inr (), \<lparr>user_states = Map.empty, trace = [ReplyText 7 PressButtonFirst]\<rparr>)"
proof -
  have "user_states initial_world 7 \<noteq> Some ''waiting_for_prompt''"
    by (simp add: initial_world_def)
  from text_without_trigger [OF this] show ?thesis
    by (simp add: initial_world_def)
qed

text \<open>
  C8. When the generation started for an accepted prompt raises, whatever the exception
  \<open>e\<close> is, the handler logs it, answers with the general error text and returns: the
  exception does not leave the handler. The session entries of all other users are as
  before.
\<close>

theorem handler_catches_generation_error:
  assumes waiting: "user_states w uid = Some ''waiting_for_prompt''"
    and invoked: "del_user_state uid (emit (ReplyText uid (Starting text)) w) = Inr w2"
    and raised: "generate_image_from_prompt srv text w2 = (Inl e, w3)"
  shows "handle_message srv uid text w =
           (Inr (), w3\<lparr>trace := trace w3 @ [Log (ErrHandler uid e), ReplyText uid ErrorOccurred]\<rparr>)
         \<and> (\<forall>v. v \<noteq> uid \<longrightarrow> user_states (snd (handle_message srv uid text w)) v = user_states w v)"
proof -
  have "handle_message srv uid text w =
           (Inr (), w3\<lparr>trace := trace w3 @ [Log (ErrHandler uid e), ReplyText uid ErrorOccurred]\<rparr>)"
    using assms by (simp add: handle_message_def emit_def)
  moreover have "user_states (snd (handle_message srv uid text w)) v = user_states w v"
    if "v \<noteq> uid" for v
    using that by (simp add: user_states_handle_message)
  ultimately show ?thesis by blast
qed

theorem handler_catches_generation_error_witness:
  "fst (handle_message (scripted (Inr (Response 503 None)) [] (status_only ''RUNNING'')) 7 ''a cat''
          two_waiting) = Inr ()
   \<and> trace (snd (handle_message (scripted (Inr (Response 503 None)) [] (status_only ''RUNNING'')) 7
          ''a cat'' two_waiting))
       = [ReplyText 7 (Starting ''a cat''), HttpPost ''a cat'', Log (ErrHandler 7 (HTTPError 503)),
          ReplyText 7 ErrorOccurred]
   \<and> user_states (snd (handle_message (scripted (Inr (Response 503 None)) [] (status_only ''RUNNING''))
          7 ''a cat'' two_waiting)) 8 = Some ''waiting_for_prompt''"
proof -
  let ?srv = "scripted (Inr (Response 503 None)) [] (status_only ''RUNNING'')"
  let ?w2 = "\<lparr>user_states = [8 \<mapsto> ''waiting_for_prompt''],
              trace = [ReplyText 7 (Starting ''a cat'')]\<rparr>"
  let ?w3 = "\<lparr>user_states = [8 \<mapsto> ''waiting_for_prompt''],
              trace = [ReplyText 7 (Starting ''a cat''), HttpPost ''a cat'']\<rparr>"
  have a: "user_states two_waiting 7 = Some ''waiting_for_prompt''"
    by (simp add: two_waiting_def)
  have b: "del_user_state 7 (emit (ReplyText 7 (Starting ''a cat'')) two_waiting) = Inr ?w2"
    by (simp add: del_user_state_def emit_def two_waiting_def fun_upd_twist)
  have c: "generate_image_from_prompt ?srv ''a cat'' ?w2 = (Inl (HTTPError 503), ?w3)"
    by (simp add: generate_image_from_prompt_def http_post_def emit_def scripted_def
        checked_json_def raise_for_status_def)
  note h = handler_catches_generation_error [OF a b c]
  have "handle_message ?srv 7 ''a cat'' two_waiting =
      (Inr (), \<lparr>user_states = [8 \<mapsto> ''waiting_for_prompt''],
              trace = [ReplyText 7 (Starting ''a cat''), HttpPost ''a cat'',
                       Log (ErrHandler 7 (HTTPError 503)), ReplyText 7 ErrorOccurred]\<rparr>)"
    using h [THEN conjunct1] by simp
  then show ?thesis by simp
qed





text \<open>
  C10. When the handler accepts a prompt, the worlds it goes through are, in order: the
  one after the first reply, where the user's entry is still there; the one after the
  \<^verbatim>\<open>del\<close>, \<open>w2\<close>, where nothing has been sent to the service yet; the one after the
  job-creation call; and the rest, which holds every world of the polling and ends in the
  world the handler returns. From \<open>w2\<close> on the user's entry is absent in every one of
  them, however the generation ends, and a press of the button in any of them sets it to
  waiting again.
\<close>

theorem session_idle_during_generation:
  assumes waiting: "user_states w uid = Some ''waiting_for_prompt''"
  shows "\<exists>w2 rest.
           handle_message_worlds srv uid text w =
             emit (ReplyText uid (Starting text)) w # w2 # emit (HttpPost text) w2 # rest
         \<and> user_states (emit (ReplyText uid (Starting text)) w) uid = Some ''waiting_for_prompt''
         \<and> del_user_state uid (emit (ReplyText uid (Starting text)) w) = Inr w2
         \<and> trace w2 = trace w @ [ReplyText uid (Starting text)]
         \<and> set (generate_worlds srv text w2) \<subseteq> set (emit (HttpPost text) w2 # rest)
         \<and> (\<forall>x \<in> set (w2 # emit (HttpPost text) w2 # rest).
               user_states x uid = None
               \<and> user_states (button uid ''generate_image'' x) uid = Some ''waiting_for_prompt'')
         \<and> last (handle_message_worlds srv uid text w) = snd (handle_message srv uid text w)"
proof -
  define w2 where "w2 = w\<lparr>user_states := (user_states w)(uid := None),
                          trace := trace w @ [ReplyText uid (Starting text)]\<rparr>"
  from handle_message_worlds_split [OF waiting w2_def, of srv] obtain rest where
    ws: "handle_message_worlds srv uid text w =
           emit (ReplyText uid (Starting text)) w # w2 # emit (HttpPost text) w2 # rest"
    and gen: "set (generate_worlds srv text w2) \<subseteq> set (emit (HttpPost text) w2 # rest)"
    and rest: "\<forall>x \<in> set rest. user_states x = user_states w2"
    by blast
  have "user_states (emit (ReplyText uid (Starting text)) w) uid = Some ''waiting_for_prompt''"
    using waiting by (simp add: user_states_emit)
  moreover have "del_user_state uid (emit (ReplyText uid (Starting text)) w) = Inr w2"
    unfolding w2_def using waiting by (rule del_user_state_waiting)
  moreover have "trace w2 = trace w @ [ReplyText uid (Starting text)]"
    by (simp add: w2_def)
  moreover have "\<forall>x \<in> set (w2 # emit (HttpPost text) w2 # rest).
               user_states x uid = None
               \<and> user_states (button uid ''generate_image'' x) uid = Some ''waiting_for_prompt''"
  proof
    fix x
    assume "x \<in> set (w2 # emit (HttpPost text) w2 # rest)"
    with rest have "user_states x = user_states w2"
      by (auto simp: user_states_emit)
    then show "user_states x uid = None
               \<and> user_states (button uid ''generate_image'' x) uid = Some ''waiting_for_prompt''"
      by (simp add: w2_def user_states_button)
  qed
  moreover note handle_message_worlds_last [of srv uid "text" w]
  ultimately show ?thesis using ws gen by blast
qed

theorem session_idle_during_generation_witness:
  "user_states two_waiting 7 = Some ''waiting_for_prompt''
   \<and> (\<exists>rest. handle_message_worlds (scripted task_created [] (succeeded_with [JStr ''u'']))
          7 ''a cat'' two_waiting
        = \<lparr>user_states = [7 \<mapsto> ''waiting_for_prompt'', 8 \<mapsto> ''waiting_for_prompt''],
           trace = [ReplyText 7 (Starting ''a cat'')]\<rparr>
          # \<lparr>user_states = [8 \<mapsto> ''waiting_for_prompt''],
             trace = [ReplyText 7 (Starting ''a cat'')]\<rparr>
          # \<lparr>user_states = [8 \<mapsto> ''waiting_for_prompt''],
             trace = [ReplyText 7 (Starting ''a cat''), HttpPost ''a cat'']\<rparr>
          # rest)
   \<and> user_states (snd (handle_message (scripted task_created [] (succeeded_with [JStr ''u'']))
        7 ''a cat'' two_waiting)) 7 = None"
proof -
  let ?srv = "scripted task_created [] (succeeded_with [JStr ''u''])"
  let ?w2 = "\<lparr>user_states = [8 \<mapsto> ''waiting_for_prompt''],
              trace = [ReplyText 7 (Starting ''a cat'')]\<rparr>"
  have a: "user_states two_waiting 7 = Some ''waiting_for_prompt''"
    by (simp add: two_waiting_def)
  have d: "del_user_state 7 (emit (ReplyText 7 (Starting ''a cat'')) two_waiting) = Inr ?w2"
    by (simp add: del_user_state_def emit_def two_waiting_def fun_upd_twist)
  from session_idle_during_generation [OF a, of ?srv "''a cat''"] obtain w2 rest where
    ws: "handle_message_worlds ?srv 7 ''a cat'' two_waiting =
           emit (ReplyText 7 (Starting ''a cat'')) two_waiting # w2
             # emit (HttpPost ''a cat'') w2 # rest"
    and del: "del_user_state 7 (emit (ReplyText 7 (Starting ''a cat'')) two_waiting) = Inr w2"
    and idle: "\<forall>x \<in> set (w2 # emit (HttpPost ''a cat'') w2 # rest). user_states x 7 = None
               \<and> user_states (button 7 ''generate_image'' x) 7 = Some ''waiting_for_prompt''"
    and fin: "last (handle_message_worlds ?srv 7 ''a cat'' two_waiting)
                = snd (handle_message ?srv 7 ''a cat'' two_waiting)"
    by blast
  from del d have w2: "w2 = ?w2"
    by simp
  have "last (handle_message_worlds ?srv 7 ''a cat'' two_waiting)
          \<in> set (w2 # emit (HttpPost ''a cat'') w2 # rest)"
    unfolding ws by simp
  with idle fin have "user_states (snd (handle_message ?srv 7 ''a cat'' two_waiting)) 7 = None"
    by auto
  moreover have "handle_message_worlds ?srv 7 ''a cat'' two_waiting
        = \<lparr>user_states = [7 \<mapsto> ''waiting_for_prompt'', 8 \<mapsto> ''waiting_for_prompt''],
           trace = [ReplyText 7 (Starting ''a cat'')]\<rparr>
          # ?w2
          # \<lparr>user_states = [8 \<mapsto> ''waiting_for_prompt''],
             trace = [ReplyText 7 (Starting ''a cat''), HttpPost ''a cat'']\<rparr>
          # rest"
    unfolding ws w2 by (simp add: emit_def two_waiting_def)
  ultimately show ?thesis using a by blast
qed

end
